theory Spec2Isabelle
  imports Complex_Main "HOL-Library.Word"
begin

unbundle bit_operations_syntax

section \<open>Bytes, typed-array reads and JavaScript arithmetic\<close>

text \<open>
  A \<^verbatim>\<open>Uint8Array\<close> is a list of bytes. A \<^verbatim>\<open>DataView\<close> over the whole array reads
  multi-byte values at a byte offset and throws a \<^verbatim>\<open>RangeError\<close> when the read would
  pass the end of the view. JavaScript numbers that hold integers are \<open>int\<close>, the others
  \<open>real\<close> (the rounding of doubles is not modelled).
\<close>

type_synonym byte = "8 word"

datatype js_error = RangeError

definition bindE :: "js_error + 'a \<Rightarrow> ('a \<Rightarrow> js_error + 'b) \<Rightarrow> js_error + 'b" where
  "bindE m f = (case m of Inl e \<Rightarrow> Inl e | Inr v \<Rightarrow> f v)"

text \<open>\<^verbatim>\<open>view.getUint16(off, true)\<close>: little-endian, bounds-checked.\<close>

definition u16le :: "byte list \<Rightarrow> nat \<Rightarrow> int" where
  "u16le data off = uint (data ! off) + 256 * uint (data ! (off + 1))"

definition getUint16 :: "byte list \<Rightarrow> nat \<Rightarrow> js_error + int" where
  "getUint16 data off =
     (if off + 2 \<le> length data then Inr (u16le data off) else Inl RangeError)"

text \<open>
  \<^verbatim>\<open>x << n\<close>: the left operand is converted to a signed 32-bit integer, shifted by
  \<open>n mod 32\<close>, and the result read back as a signed 32-bit integer.
\<close>

definition js_shl :: "int \<Rightarrow> nat \<Rightarrow> int" where
  "js_shl x n = sint (push_bit (n mod 32) (word_of_int x :: 32 word))"

section \<open>device.js: the monitor decoder and its spike filter\<close>

record MonitorSample =
  timestamp :: int
  ticks :: int
  posA :: int
  posB :: int
  loadA :: real
  loadB :: real
  raw :: "byte list"

text \<open>The two fields of \<^verbatim>\<open>VitruvianDevice\<close> that \<^verbatim>\<open>parseMonitorData\<close> reads and writes.\<close>

record SpikeFilter =
  lastGoodPosA :: int
  lastGoodPosB :: int

text \<open>
  \<^verbatim>\<open>parseMonitorData(data)\<close>; \<open>now\<close> stands for \<^verbatim>\<open>new Date()\<close>. The result is the
  sample together with the updated filter state.
\<close>

definition parseMonitorData ::
  "int \<Rightarrow> byte list \<Rightarrow> SpikeFilter \<Rightarrow> js_error + (MonitorSample \<times> SpikeFilter)" where
  "parseMonitorData now data dev =
     (let sample = \<lparr>timestamp = now, ticks = 0, posA = 0, posB = 0,
                     loadA = 0, loadB = 0, raw = data\<rparr>
      in if length data < 16 then Inr (sample, dev)
         else
           bindE (getUint16 data 0) (\<lambda>f0.
           bindE (getUint16 data 2) (\<lambda>f1.
           bindE (getUint16 data 4) (\<lambda>f2.
           bindE (getUint16 data 8) (\<lambda>f4.
           bindE (getUint16 data 10) (\<lambda>f5.
           bindE (getUint16 data 14) (\<lambda>f7.
             let sample = sample\<lparr>ticks := f0 + js_shl f1 16\<rparr>;
                 (pA, dev) = (if f2 > 50000 then (lastGoodPosA dev, dev)
                              else (f2, dev\<lparr>lastGoodPosA := f2\<rparr>));
                 (pB, dev) = (if f5 > 50000 then (lastGoodPosB dev, dev)
                              else (f5, dev\<lparr>lastGoodPosB := f5\<rparr>));
                 sample = sample\<lparr>posA := pA, posB := pB\<rparr>;
                 sample = sample\<lparr>loadA := of_int f4 / 100, loadB := of_int f7 / 100\<rparr>
             in Inr (sample, dev))))))))"


section \<open>hooks/useWorkout.ts: the rep-detection and auto-stop engine\<close>

text \<open>
  The hook's state variables and refs form one record. Each handler is modelled as the
  callback of the latest render applied to that record: the values it reads from its
  closure are the fields of the state it is given, and the state updates it requests are
  applied in the state it returns. The three callbacks the hook receives (\<^verbatim>\<open>addLog\<close>,
  \<^verbatim>\<open>onAutoStop\<close>, \<^verbatim>\<open>onWorkoutComplete\<close>) belong to the caller; a handler returns the list of
  their invocations, in order. Log texts are given without their interpolated values.
  \<open>now\<close> stands for \<^verbatim>\<open>Date.now()\<close> and \<^verbatim>\<open>new Date()\<close>, read once per handler call.
\<close>

datatype LogLevel = info | success | failure

datatype Effect = AddLog string LogLevel | OnAutoStop | OnWorkoutComplete

record PositionRange =
  range_min :: int
  range_max :: int

record CurrentWorkout =
  workoutMode :: string
  weightKg :: real
  workoutTargetReps :: int
  startTime :: int
  warmupEndTime :: "int option"
  endTime :: "int option"

record RepRanges =
  minRepPosA :: "int option"
  maxRepPosA :: "int option"
  minRepPosB :: "int option"
  maxRepPosB :: "int option"
  minRepPosARange :: "PositionRange option"
  maxRepPosARange :: "PositionRange option"
  minRepPosBRange :: "PositionRange option"
  maxRepPosBRange :: "PositionRange option"

record Engine =
  currentWorkout :: "CurrentWorkout option"
  warmupReps :: int
  workingReps :: int
  warmupTarget :: int
  targetReps :: int
  isJustLiftMode :: bool
  stopAtTop :: bool
  autoStopProgress :: real
  maxPos :: int
  liveStats :: "int \<times> int \<times> real \<times> real \<times> int"
  repRanges :: RepRanges
  topPositionsA :: "int list"
  bottomPositionsA :: "int list"
  topPositionsB :: "int list"
  bottomPositionsB :: "int list"
  lastTopCounter :: "int option"
  lastRepCounter :: "int option"
  autoStopStartTime :: "int option"
  currentSampleRef :: "MonitorSample option"

definition WARMUP_TARGET_DEFAULT :: int where "WARMUP_TARGET_DEFAULT = 3"
definition AUTO_STOP_DURATION :: int where "AUTO_STOP_DURATION = 5000"
definition WINDOW_SIZE_WARMUP :: nat where "WINDOW_SIZE_WARMUP = 2"
definition WINDOW_SIZE_WORKING :: nat where "WINDOW_SIZE_WORKING = 3"

definition emptyRanges :: RepRanges where
  "emptyRanges = \<lparr>minRepPosA = None, maxRepPosA = None, minRepPosB = None, maxRepPosB = None,
     minRepPosARange = None, maxRepPosARange = None,
     minRepPosBRange = None, maxRepPosBRange = None\<rparr>"

text \<open>The state of the hook at its first render.\<close>

definition initialEngine :: Engine where
  "initialEngine = \<lparr>currentWorkout = None, warmupReps = 0, workingReps = 0,
     warmupTarget = WARMUP_TARGET_DEFAULT, targetReps = 0, isJustLiftMode = False,
     stopAtTop = False, autoStopProgress = 0, maxPos = 1000, liveStats = (0, 0, 0, 0, 0),
     repRanges = emptyRanges, topPositionsA = [], bottomPositionsA = [],
     topPositionsB = [], bottomPositionsB = [], lastTopCounter = None,
     lastRepCounter = None, autoStopStartTime = None, currentSampleRef = None\<rparr>"

definition getWindowSize :: "Engine \<Rightarrow> nat" where
  "getWindowSize st =
     (let totalReps = warmupReps st + workingReps st
      in if totalReps < warmupTarget st then WINDOW_SIZE_WARMUP else WINDOW_SIZE_WORKING)"

text \<open>\<^verbatim>\<open>Math.round\<close> rounds to the nearest integer, halves upwards.\<close>

definition js_round :: "real \<Rightarrow> int" where
  "js_round x = \<lfloor>x + 1 / 2\<rfloor>"

definition calculateAverage :: "int list \<Rightarrow> int option" where
  "calculateAverage arr =
     (if length arr = 0 then None
      else let sum = foldl (+) 0 arr
           in Some (js_round (of_int sum / of_nat (length arr))))"

definition calculateRange :: "int list \<Rightarrow> PositionRange option" where
  "calculateRange arr =
     (if length arr = 0 then None
      else Some \<lparr>range_min = Min (set arr), range_max = Max (set arr)\<rparr>)"

definition updateRepRanges :: "Engine \<Rightarrow> Engine" where
  "updateRepRanges st =
     (let newRanges = \<lparr>
        minRepPosA = calculateAverage (bottomPositionsA st),
        maxRepPosA = calculateAverage (topPositionsA st),
        minRepPosB = calculateAverage (bottomPositionsB st),
        maxRepPosB = calculateAverage (topPositionsB st),
        minRepPosARange = calculateRange (bottomPositionsA st),
        maxRepPosARange = calculateRange (topPositionsA st),
        minRepPosBRange = calculateRange (bottomPositionsB st),
        maxRepPosBRange = calculateRange (topPositionsB st)\<rparr>
      in st\<lparr>repRanges := newRanges\<rparr>)"

text \<open>\<^verbatim>\<open>arr.push(v); if (arr.length > windowSize) arr.shift();\<close>\<close>

definition pushWindow :: "nat \<Rightarrow> int \<Rightarrow> int list \<Rightarrow> int list" where
  "pushWindow windowSize v arr =
     (let arr = arr @ [v] in if length arr > windowSize then tl arr else arr)"

definition recordTopPosition :: "int \<Rightarrow> int \<Rightarrow> Engine \<Rightarrow> Engine" where
  "recordTopPosition pA pB st =
     (let windowSize = getWindowSize st;
          st = st\<lparr>topPositionsA := pushWindow windowSize pA (topPositionsA st),
                  topPositionsB := pushWindow windowSize pB (topPositionsB st)\<rparr>
      in updateRepRanges st)"

definition recordBottomPosition :: "int \<Rightarrow> int \<Rightarrow> Engine \<Rightarrow> Engine" where
  "recordBottomPosition pA pB st =
     (let windowSize = getWindowSize st;
          st = st\<lparr>bottomPositionsA := pushWindow windowSize pA (bottomPositionsA st),
                  bottomPositionsB := pushWindow windowSize pB (bottomPositionsB st)\<rparr>
      in updateRepRanges st)"


text \<open>
  Truthiness of a \<^verbatim>\<open>number | null\<close> that holds an integer: \<^verbatim>\<open>!v\<close> is true for
  \<^verbatim>\<open>null\<close> and for \<open>0\<close>; \<^verbatim>\<open>v || 0\<close> is \<open>0\<close> in both cases.
\<close>

definition falsy :: "int option \<Rightarrow> bool" where
  "falsy v = (case v of None \<Rightarrow> True | Some n \<Rightarrow> n = 0)"

definition orZero :: "int option \<Rightarrow> int" where
  "orZero v = (case v of None \<Rightarrow> 0 | Some n \<Rightarrow> n)"

definition checkAutoStop ::
  "int \<Rightarrow> MonitorSample \<Rightarrow> RepRanges \<Rightarrow> Engine \<Rightarrow> Engine \<times> Effect list" where
  "checkAutoStop now sample ranges st =
     (if falsy (minRepPosA ranges) \<and> falsy (minRepPosB ranges)
      then (st\<lparr>autoStopProgress := 0\<rparr>, [])
      else
        let rangeA = orZero (maxRepPosA ranges) - orZero (minRepPosA ranges);
            rangeB = orZero (maxRepPosB ranges) - orZero (minRepPosB ranges);
            minRangeThreshold = 50;
            checkCableA = (rangeA > minRangeThreshold);
            checkCableB = (rangeB > minRangeThreshold)
        in if \<not> checkCableA \<and> \<not> checkCableB
           then (st\<lparr>autoStopProgress := 0\<rparr>, [])
           else
             let inDangerZone = False;
                 inDangerZone =
                   (case minRepPosA ranges of
                      Some m \<Rightarrow>
                        if checkCableA \<and>
                           of_int (posA sample) \<le> (of_int m + of_int rangeA * 0.05 :: real)
                        then True else inDangerZone
                    | None \<Rightarrow> inDangerZone);
                 inDangerZone =
                   (case minRepPosB ranges of
                      Some m \<Rightarrow>
                        if checkCableB \<and>
                           of_int (posB sample) \<le> (of_int m + of_int rangeB * 0.05 :: real)
                        then True else inDangerZone
                    | None \<Rightarrow> inDangerZone)
             in if inDangerZone
                then
                  let (start, fx) =
                        (case autoStopStartTime st of
                           None \<Rightarrow> (now, [AddLog ''Near bottom of range, starting auto-stop timer (5s)...'' info])
                         | Some t \<Rightarrow> (t, []));
                      elapsed = now - start;
                      progress = min (of_int elapsed / of_int AUTO_STOP_DURATION) (1 :: real);
                      st = st\<lparr>autoStopStartTime := Some start, autoStopProgress := progress\<rparr>
                  in if elapsed \<ge> AUTO_STOP_DURATION
                     then (st, fx @ [AddLog ''Auto-stop triggered! Finishing workout...'' success,
                                     OnAutoStop])
                     else (st, fx)
                else
                  (case autoStopStartTime st of
                     Some t \<Rightarrow> (st\<lparr>autoStopStartTime := None, autoStopProgress := 0\<rparr>,
                                [AddLog ''Moved out of danger zone, timer reset'' info])
                   | None \<Rightarrow> (st\<lparr>autoStopProgress := 0\<rparr>, [])))"

definition handleMonitorSample ::
  "int \<Rightarrow> MonitorSample \<Rightarrow> Engine \<Rightarrow> Engine \<times> Effect list" where
  "handleMonitorSample now sample st0 =
     (let st = st0\<lparr>currentSampleRef := Some sample,
                    liveStats := (posA sample, posB sample, loadA sample, loadB sample,
                                  ticks sample)\<rparr>;
          currentMax = max (posA sample) (posB sample);
          st = (if currentMax > maxPos st0 then st\<lparr>maxPos := currentMax + 100\<rparr> else st)
      in if isJustLiftMode st0 then checkAutoStop now sample (repRanges st) st
         else (st, []))"

text \<open>
  The decoding loop of \<^verbatim>\<open>handleRepNotification\<close>:
  \<^verbatim>\<open>for (let i = 0; i < numU16; i++) u16Values.push(view.getUint16(i * 2, true));\<close>
  with \<^verbatim>\<open>numU16 = data.length / 2\<close>, a division of numbers and not of integers.
\<close>

function readU16s :: "byte list \<Rightarrow> nat \<Rightarrow> int list \<Rightarrow> js_error + int list" where
  "readU16s data i u16Values =
     (if real i < real (length data) / 2
      then (case getUint16 data (i * 2) of
              Inl e \<Rightarrow> Inl e
            | Inr v \<Rightarrow> readU16s data (i + 1) (u16Values @ [v]))
      else Inr u16Values)"
  by pat_completeness auto
termination
  by (relation "measure (\<lambda>(data, i, u16Values). length data - 2 * i)") auto

declare readU16s.simps [simp del]

text \<open>The wrap-aware difference of two counter readings, written out twice in the source.\<close>

definition counterDelta :: "int \<Rightarrow> int \<Rightarrow> int" where
  "counterDelta c prev = (if c \<ge> prev then c - prev else 0xffff - prev + c + 1)"

text \<open>\<^verbatim>\<open>handleRepNotification\<close>, first half: "Track top of range".\<close>

definition trackTop :: "MonitorSample \<Rightarrow> int \<Rightarrow> Engine \<Rightarrow> Engine \<times> Effect list" where
  "trackTop sample topCounter st0 =
     (case lastTopCounter st0 of
        None \<Rightarrow> (st0\<lparr>lastTopCounter := Some topCounter\<rparr>, [])
      | Some prev \<Rightarrow>
          let topDelta = counterDelta topCounter prev
          in if topDelta > 0
             then
               let st = recordTopPosition (posA sample) (posB sample) st0;
                   st = st\<lparr>lastTopCounter := Some topCounter\<rparr>;
                   fx = [AddLog ''TOP detected!'' success]
               in if stopAtTop st0 \<and> \<not> isJustLiftMode st0 \<and> targetReps st0 > 0 \<and>
                     workingReps st0 = targetReps st0 - 1
                  then (st, fx @ [AddLog ''Reached top of final rep! Auto-completing workout...'' success,
                                  OnAutoStop, OnWorkoutComplete])
                  else (st, fx)
             else (st0, []))"

text \<open>
  Second half: "Track rep complete / bottom of range". \<open>st0\<close> is the state of the
  render the callback closes over, \<open>st\<close> the state after the first half.
\<close>

definition trackBottom ::
  "int \<Rightarrow> MonitorSample \<Rightarrow> int \<Rightarrow> Engine \<Rightarrow> Engine \<Rightarrow> Engine \<times> Effect list" where
  "trackBottom now sample completeCounter st0 st =
     (case lastRepCounter st of
        None \<Rightarrow> (st\<lparr>lastRepCounter := Some completeCounter\<rparr>, [])
      | Some prev \<Rightarrow>
          let delta = counterDelta completeCounter prev;
              (st, fx) =
                (if delta > 0
                 then
                   let st = recordBottomPosition (posA sample) (posB sample) st;
                       fx = [AddLog ''BOTTOM detected!'' success];
                       totalReps = warmupReps st0 + workingReps st0 + 1
                   in if totalReps \<le> warmupTarget st0
                      then
                        let newCount = warmupReps st + 1;
                            fx = fx @ [AddLog ''Warmup rep complete'' success];
                            st = (if newCount = warmupTarget st0
                                  then st\<lparr>currentWorkout :=
                                         map_option (\<lambda>workout. workout\<lparr>warmupEndTime := Some now\<rparr>)
                                           (currentWorkout st)\<rparr>
                                  else st)
                        in (st\<lparr>warmupReps := newCount\<rparr>, fx)
                      else
                        let newCount = workingReps st + 1;
                            fx = fx @ [AddLog ''Working rep complete'' success];
                            fx = (if \<not> stopAtTop st0 \<and> \<not> isJustLiftMode st0 \<and>
                                     targetReps st0 > 0 \<and> newCount \<ge> targetReps st0
                                  then fx @ [AddLog ''Target reps reached! Auto-completing workout...'' success,
                                             OnWorkoutComplete]
                                  else fx)
                        in (st\<lparr>workingReps := newCount\<rparr>, fx)
                 else (st, []))
          in (st\<lparr>lastRepCounter := Some completeCounter\<rparr>, fx))"

definition handleRepNotification ::
  "int \<Rightarrow> byte list \<Rightarrow> Engine \<Rightarrow> js_error + (Engine \<times> Effect list)" where
  "handleRepNotification now data st0 =
     (if length data < 6 then Inr (st0, [])
      else
        bindE (readU16s data 0 []) (\<lambda>u16Values.
          if length u16Values < 3 then Inr (st0, [])
          else
            let topCounter = u16Values ! 0;
                completeCounter = u16Values ! 2;
                fx0 = [AddLog ''Rep notification'' info]
            in case (currentSampleRef st0, currentWorkout st0) of
                 (Some sample, Some workout) \<Rightarrow>
                   let (st, fx1) = trackTop sample topCounter st0;
                       (st, fx2) = trackBottom now sample completeCounter st0 st
                   in Inr (st, fx0 @ fx1 @ fx2)
               | _ \<Rightarrow> Inr (st0, fx0)))"

definition startWorkout :: "int \<Rightarrow> string \<Rightarrow> real \<Rightarrow> int \<Rightarrow> bool \<Rightarrow> Engine \<Rightarrow> Engine" where
  "startWorkout now modeName weight reps isJustLift st =
     st\<lparr>currentWorkout := Some \<lparr>workoutMode = modeName, weightKg = weight, workoutTargetReps = reps,
                                startTime = now, warmupEndTime = None, endTime = None\<rparr>,
        targetReps := reps,
        isJustLiftMode := isJustLift,
        warmupReps := 0,
        workingReps := 0,
        topPositionsA := [], bottomPositionsA := [],
        topPositionsB := [], bottomPositionsB := [],
        lastTopCounter := None, lastRepCounter := None,
        autoStopStartTime := None,
        autoStopProgress := 0,
        repRanges := emptyRanges\<rparr>"

definition resetWorkout :: "Engine \<Rightarrow> Engine" where
  "resetWorkout st =
     st\<lparr>currentWorkout := None,
        warmupReps := 0,
        workingReps := 0,
        targetReps := 0,
        isJustLiftMode := False,
        autoStopProgress := 0,
        topPositionsA := [], bottomPositionsA := [],
        topPositionsB := [], bottomPositionsB := [],
        lastTopCounter := None, lastRepCounter := None,
        autoStopStartTime := None,
        repRanges := emptyRanges\<rparr>"


section \<open>device.js: the GATT operation queue\<close>

text \<open>
  JavaScript runs one callback at a time, so the queue is a transition system whose
  atomic steps are the synchronous stretches of the two methods. An operation is named
  by its submission index. \<open>inFlight\<close> lists the operations that have been called and
  whose promise the queue still awaits; \<open>completions\<close> lists the calls of
  \<^verbatim>\<open>resolve\<close> and \<^verbatim>\<open>reject\<close> in the order they were made.
\<close>

datatype Outcome = Resolved | Rejected

record GattState =
  gattQueue :: "nat list"
  gattBusy :: bool
  inFlight :: "nat list"
  completions :: "(nat \<times> Outcome) list"
  submitted :: nat

definition newDevice :: GattState where
  "newDevice = \<lparr>gattQueue = [], gattBusy = False, inFlight = [], completions = [],
                  submitted = 0\<rparr>"

text \<open>\<^verbatim>\<open>processGattQueue\<close> up to its \<^verbatim>\<open>await operation()\<close>.\<close>

definition processGattQueue :: "GattState \<Rightarrow> GattState" where
  "processGattQueue st =
     (if gattBusy st \<or> length (gattQueue st) = 0 then st
      else
        let st = st\<lparr>gattBusy := True\<rparr>
        in if length (gattQueue st) = 0 then st\<lparr>gattBusy := False\<rparr>
           else st\<lparr>gattQueue := tl (gattQueue st),
                   inFlight := inFlight st @ [hd (gattQueue st)]\<rparr>)"

text \<open>
  The rest of \<^verbatim>\<open>processGattQueue\<close>, run when the awaited operation \<open>op\<close> has settled:
  \<^verbatim>\<open>resolve(result)\<close> or \<^verbatim>\<open>reject(error)\<close>, then the \<^verbatim>\<open>finally\<close> block.
\<close>

definition settleOperation :: "nat \<Rightarrow> Outcome \<Rightarrow> GattState \<Rightarrow> GattState" where
  "settleOperation op outcome st =
     (let st = st\<lparr>inFlight := remove1 op (inFlight st),
                  completions := completions st @ [(op, outcome)]\<rparr>;
          st = st\<lparr>gattBusy := False\<rparr>
      in processGattQueue st)"

definition queueGattOperation :: "GattState \<Rightarrow> GattState" where
  "queueGattOperation st =
     (let st = st\<lparr>gattQueue := gattQueue st @ [submitted st],
                  submitted := submitted st + 1\<rparr>
      in processGattQueue st)"

text \<open>
  What can happen to a device: a caller submits an operation, or the transport settles
  an operation that is in flight. A run is a list of such events; an event that names an
  operation which is not in flight cannot happen.
\<close>

datatype GattEvent = Submit | Settle nat Outcome

fun gattRun :: "GattEvent list \<Rightarrow> GattState \<Rightarrow> GattState option" where
  "gattRun [] st = Some st"
| "gattRun (Submit # evs) st = gattRun evs (queueGattOperation st)"
| "gattRun (Settle op outcome # evs) st =
     (if op \<in> set (inFlight st) then gattRun evs (settleOperation op outcome st) else None)"

text \<open>
  The transport settles whatever is in flight, once per outcome of the list: the queue is
  driven by completions alone.
\<close>

fun settleAll :: "Outcome list \<Rightarrow> GattState \<Rightarrow> GattState" where
  "settleAll [] st = st"
| "settleAll (r # rs) st =
     (case inFlight st of [] \<Rightarrow> st | op # _ \<Rightarrow> settleAll rs (settleOperation op r st))"

text \<open>
  The invariant of the queue: completed, in-flight and queued operations, in this order,
  are the submitted ones in submission order; at most one operation is in flight, exactly
  when the busy flag is set; and nothing waits while nothing is in flight.
\<close>

definition queueInv :: "GattState \<Rightarrow> bool" where
  "queueInv st \<longleftrightarrow>
     map fst (completions st) @ inFlight st @ gattQueue st = [0..<submitted st] \<and>
     length (inFlight st) \<le> 1 \<and>
     (gattBusy st \<longleftrightarrow> inFlight st \<noteq> []) \<and>
     (gattQueue st \<noteq> [] \<longrightarrow> inFlight st \<noteq> [])"

text \<open>Three operations submitted, the first one failed: the second is in flight.\<close>

definition afterFirstFailed :: GattState where
  "afterFirstFailed = \<lparr>gattQueue = [2], gattBusy = True, inFlight = [1],
                         completions = [(0, Rejected)], submitted = 3\<rparr>"

section \<open>modes.js and protocol.js: the program frame\<close>

text \<open>
  \<^verbatim>\<open>DataView.setFloat32\<close> stores the IEEE-754 single-precision pattern of the number
  nearest to its argument. That rounding is the platform's; it is the parameter \<open>f32\<close> of
  the frame builders. Every multi-byte store is bounds-checked, as in the platform.
\<close>

definition le16 :: "16 word \<Rightarrow> byte list" where
  "le16 w = [ucast w, ucast (drop_bit 8 w)]"

definition le32 :: "32 word \<Rightarrow> byte list" where
  "le32 w = [ucast w, ucast (drop_bit 8 w), ucast (drop_bit 16 w), ucast (drop_bit 24 w)]"

definition viewSet :: "nat \<Rightarrow> byte list \<Rightarrow> byte list \<Rightarrow> js_error + byte list" where
  "viewSet off bs buf =
     (if off + length bs \<le> length buf
      then Inr (take off buf @ bs @ drop (off + length bs) buf)
      else Inl RangeError)"

definition writeU16LE :: "nat \<Rightarrow> int \<Rightarrow> byte list \<Rightarrow> js_error + byte list" where
  "writeU16LE off val buf = viewSet off (le16 (word_of_int val)) buf"

definition writeI16LE :: "nat \<Rightarrow> int \<Rightarrow> byte list \<Rightarrow> js_error + byte list" where
  "writeI16LE off val buf = viewSet off (le16 (word_of_int val)) buf"

definition writeF32LE ::
  "(real \<Rightarrow> 32 word) \<Rightarrow> nat \<Rightarrow> real \<Rightarrow> byte list \<Rightarrow> js_error + byte list" where
  "writeF32LE f32 off val buf = viewSet off (le32 (f32 val)) buf"

text \<open>\<^verbatim>\<open>frame[i] = v\<close> on a \<^verbatim>\<open>Uint8Array\<close>: the value modulo 256; no effect out of range.\<close>

definition putByte :: "nat \<Rightarrow> int \<Rightarrow> byte list \<Rightarrow> js_error + byte list" where
  "putByte i v buf = Inr (buf[i := word_of_int v])"

text \<open>A block of statements on one buffer, run in order; the first exception ends it.\<close>

fun seqE :: "(byte list \<Rightarrow> js_error + byte list) list \<Rightarrow> byte list \<Rightarrow> js_error + byte list" where
  "seqE [] buf = Inr buf"
| "seqE (w # ws) buf = bindE (w buf) (seqE ws)"

datatype ProgramMode = OLD_SCHOOL | PUMP | TUT | TUT_BEAST | ECCENTRIC_ONLY

fun getModeProfile :: "(real \<Rightarrow> 32 word) \<Rightarrow> ProgramMode \<Rightarrow> js_error + byte list" where
  "getModeProfile f32 OLD_SCHOOL = seqE [
     writeU16LE 0x00 0, writeU16LE 0x02 20, writeF32LE f32 0x04 3.0,
     writeU16LE 0x08 75, writeU16LE 0x0a 600, writeF32LE f32 0x0c 50.0,
     writeI16LE 0x10 (-1300), writeI16LE 0x12 (-1200), writeF32LE f32 0x14 100.0,
     writeI16LE 0x18 (-260), writeI16LE 0x1a (-110), writeF32LE f32 0x1c 0.0]
     (replicate 32 0)"
| "getModeProfile f32 PUMP = seqE [
     writeU16LE 0x00 50, writeU16LE 0x02 450, writeF32LE f32 0x04 10.0,
     writeU16LE 0x08 500, writeU16LE 0x0a 600, writeF32LE f32 0x0c 50.0,
     writeI16LE 0x10 (-700), writeI16LE 0x12 (-550), writeF32LE f32 0x14 1.0,
     writeI16LE 0x18 (-100), writeI16LE 0x1a (-50), writeF32LE f32 0x1c 1.0]
     (replicate 32 0)"
| "getModeProfile f32 TUT = seqE [
     writeU16LE 0x00 250, writeU16LE 0x02 350, writeF32LE f32 0x04 7.0,
     writeU16LE 0x08 450, writeU16LE 0x0a 600, writeF32LE f32 0x0c 50.0,
     writeI16LE 0x10 (-900), writeI16LE 0x12 (-700), writeF32LE f32 0x14 70.0,
     writeI16LE 0x18 (-100), writeI16LE 0x1a (-50), writeF32LE f32 0x1c 14.0]
     (replicate 32 0)"
| "getModeProfile f32 TUT_BEAST = seqE [
     writeU16LE 0x00 150, writeU16LE 0x02 250, writeF32LE f32 0x04 7.0,
     writeU16LE 0x08 350, writeU16LE 0x0a 450, writeF32LE f32 0x0c 50.0,
     writeI16LE 0x10 (-900), writeI16LE 0x12 (-700), writeF32LE f32 0x14 70.0,
     writeI16LE 0x18 (-100), writeI16LE 0x1a (-50), writeF32LE f32 0x1c 28.0]
     (replicate 32 0)"
| "getModeProfile f32 ECCENTRIC_ONLY = seqE [
     writeU16LE 0x00 50, writeU16LE 0x02 550, writeF32LE f32 0x04 50.0,
     writeU16LE 0x08 650, writeU16LE 0x0a 750, writeF32LE f32 0x0c 10.0,
     writeI16LE 0x10 (-900), writeI16LE 0x12 (-700), writeF32LE f32 0x14 70.0,
     writeI16LE 0x18 (-100), writeI16LE 0x1a (-50), writeF32LE f32 0x1c 20.0]
     (replicate 32 0)"

text \<open>
  The fields of the parameter object that \<^verbatim>\<open>buildProgramParams\<close> reads.
  \<^verbatim>\<open>progressionKg\<close> may be absent.
\<close>

record ProgramParams =
  mode :: ProgramMode
  baseMode :: ProgramMode
  isJustLift :: bool
  reps :: int
  perCableKg :: real
  effectiveKg :: real
  progressionKg :: "real option"

text \<open>\<^verbatim>\<open>params.progressionKg || 0.0\<close>\<close>

definition orZeroReal :: "real option \<Rightarrow> real" where
  "orZeroReal v = (case v of None \<Rightarrow> 0.0 | Some x \<Rightarrow> if x = 0 then 0.0 else x)"

definition buildProgramParams :: "(real \<Rightarrow> 32 word) \<Rightarrow> ProgramParams \<Rightarrow> js_error + byte list" where
  "buildProgramParams f32 params =
     (let profileMode = (if isJustLift params then baseMode params else mode params)
      in seqE [
        putByte 0 0x04, putByte 1 0x00, putByte 2 0x00, putByte 3 0x00,
        (if isJustLift params then putByte 0x04 0xff else putByte 0x04 (reps params + 3)),
        putByte 5 0x03, putByte 6 0x03, putByte 7 0x00,
        writeF32LE f32 0x08 5.0, writeF32LE f32 0x0c 5.0, writeF32LE f32 0x1c 5.0,
        putByte 0x14 0xfa, putByte 0x15 0x00, putByte 0x16 0xfa, putByte 0x17 0x00,
        putByte 0x18 0xc8, putByte 0x19 0x00, putByte 0x1a 0x1e, putByte 0x1b 0x00,
        putByte 0x24 0xfa, putByte 0x25 0x00, putByte 0x26 0xfa, putByte 0x27 0x00,
        putByte 0x28 0xc8, putByte 0x29 0x00, putByte 0x2a 0x1e, putByte 0x2b 0x00,
        putByte 0x2c 0xfa, putByte 0x2d 0x00, putByte 0x2e 0x50, putByte 0x2f 0x00,
        (\<lambda>frame. bindE (getModeProfile f32 profileMode) (\<lambda>profile. viewSet 0x30 profile frame)),
        writeF32LE f32 0x54 (effectiveKg params),
        writeF32LE f32 0x58 (perCableKg params),
        writeF32LE f32 0x5c (orZeroReal (progressionKg params))]
        (replicate 96 0))"


text \<open>
  For an example frame: the single-precision patterns of the numbers that occur in it.
  Numbers outside the table do not occur in the example and are mapped to 0.
\<close>

definition f32Example :: "real \<Rightarrow> 32 word" where
  "f32Example x =
     (if x = 1 then 0x3F800000 else if x = 3 then 0x40400000 else if x = 5 then 0x40A00000
      else if x = 7 then 0x40E00000 else if x = 10 then 0x41200000
      else if x = 14 then 0x41600000 else if x = 20 then 0x41A00000
      else if x = 28 then 0x41E00000 else if x = 30 then 0x41F00000
      else if x = 50 then 0x42480000 else if x = 70 then 0x428C0000
      else if x = 100 then 0x42C80000 else 0)"

text \<open>Ten reps of "Pump" at 20 kg per cable, 30 kg effective, no progression given.\<close>

definition pumpTenReps :: ProgramParams where
  "pumpTenReps = \<lparr>mode = PUMP, baseMode = PUMP, isJustLift = False, reps = 10,
                    perCableKg = 20, effectiveKg = 30, progressionKg = None\<rparr>"

section \<open>Runs of the engine\<close>

text \<open>
  A run of rep notifications, and a run of monitor samples: each event is handled by the
  callback of the render that follows the previous event. A run of notifications ends at
  the first exception; a run of samples collects the callback invocations.
\<close>

fun feedReps :: "(int \<times> byte list) list \<Rightarrow> Engine \<Rightarrow> js_error + Engine" where
  "feedReps [] st = Inr st"
| "feedReps ((now, data) # rest) st =
     (case handleRepNotification now data st of
        Inl e \<Rightarrow> Inl e
      | Inr (st', fx) \<Rightarrow> feedReps rest st')"

fun feedSamples :: "(int \<times> MonitorSample) list \<Rightarrow> Engine \<Rightarrow> Engine \<times> Effect list" where
  "feedSamples [] st = (st, [])"
| "feedSamples ((now, sample) # rest) st =
     (case handleMonitorSample now sample st of
        (st', fx) \<Rightarrow> (case feedSamples rest st' of (st'', fx') \<Rightarrow> (st'', fx @ fx')))"

text \<open>What the rep counters show after a run: warmup reps, working reps, warmup end.\<close>

fun repSummary :: "js_error + Engine \<Rightarrow> (int \<times> int \<times> int option) option" where
  "repSummary (Inl e) = None"
| "repSummary (Inr st) =
     (case currentWorkout st of
        None \<Rightarrow> None
      | Some workout \<Rightarrow> Some (warmupReps st, workingReps st, warmupEndTime workout))"

text \<open>A sample at position \<open>(a, b)\<close> with no load, and a rep payload of three u16 values.\<close>

definition sampleAt :: "int \<Rightarrow> int \<Rightarrow> MonitorSample" where
  "sampleAt a b = \<lparr>timestamp = 0, ticks = 0, posA = a, posB = b, loadA = 0, loadB = 0,
                    raw = []\<rparr>"

definition repPayload :: "byte \<Rightarrow> byte \<Rightarrow> byte list" where
  "repPayload topLow completeLow = [topLow, 0, 0, 0, completeLow, 0]"

text \<open>
  A 10-rep "Old School" program started on a fresh engine, with one monitor sample
  received.
\<close>

definition oldSchoolStarted :: Engine where
  "oldSchoolStarted =
     fst (handleMonitorSample 5 (sampleAt 100 100)
            (startWorkout 0 ''Old School'' 20 10 False initialEngine))"

text \<open>
  An unlimited workout whose windows on cable A hold tops at 260 and bottoms at 200, so
  that the range is 60, above the threshold of 50.
\<close>

definition justLiftEstablished :: Engine where
  "justLiftEstablished =
     updateRepRanges
       ((startWorkout 0 ''Just Lift (Old School)'' 20 0 True initialEngine)
          \<lparr>topPositionsA := [260, 260], bottomPositionsA := [200, 200]\<rparr>)"

text \<open>
  An unlimited workout whose bottoms on cable A are at position 0 (cable fully retracted)
  and whose tops are at 100.
\<close>

definition bottomAtZero :: Engine where
  "bottomAtZero =
     updateRepRanges
       ((startWorkout 0 ''Just Lift (Old School)'' 20 0 True initialEngine)
          \<lparr>topPositionsA := [100, 100], bottomPositionsA := [0, 0]\<rparr>)"

section \<open>Properties of the monitor decoder\<close>

lemma getUint16_ok: "off + 2 \<le> length data \<Longrightarrow> getUint16 data off = Inr (u16le data off)"
  by (simp add: getUint16_def)

lemma u16le_bounds: "0 \<le> u16le data off \<and> u16le data off < 65536"
proof -
  have "uint (data ! off) < 256" "uint (data ! (off + 1)) < 256"
    using uint_bounded [of "data ! off"] uint_bounded [of "data ! (off + 1)"] by simp_all
  then show ?thesis
    unfolding u16le_def by simp
qed

lemma parseMonitorData_long:
  assumes "16 \<le> length data"
  shows "parseMonitorData now data dev =
    Inr (\<lparr>timestamp = now, ticks = u16le data 0 + js_shl (u16le data 2) 16,
          posA = (if u16le data 4 > 50000 then lastGoodPosA dev else u16le data 4),
          posB = (if u16le data 10 > 50000 then lastGoodPosB dev else u16le data 10),
          loadA = of_int (u16le data 8) / 100, loadB = of_int (u16le data 14) / 100,
          raw = data\<rparr>,
         \<lparr>lastGoodPosA = (if u16le data 4 > 50000 then lastGoodPosA dev else u16le data 4),
          lastGoodPosB = (if u16le data 10 > 50000 then lastGoodPosB dev else u16le data 10)\<rparr>)"
  using assms by (simp add: parseMonitorData_def getUint16_ok bindE_def Let_def)

text \<open>
  A buffer shorter than 16 bytes yields the zeroed sample, with the bytes kept as
  \<open>raw\<close> and the filter state untouched; no exception is raised.
\<close>

lemma parseMonitorData_short:
  "length data < 16 \<Longrightarrow> parseMonitorData now data dev =
     Inr (\<lparr>timestamp = now, ticks = 0, posA = 0, posB = 0, loadA = 0, loadB = 0,
           raw = data\<rparr>, dev)"
  by (simp add: parseMonitorData_def)

text \<open>The decoder never raises, whatever the length of the buffer.\<close>

lemma parseMonitorData_total: "\<exists>r. parseMonitorData now data dev = Inr r"
  by (cases "length data < 16") (simp_all add: parseMonitorData_short parseMonitorData_long)

text \<open>On a buffer of at least 16 bytes the loads are the u16 at offsets 8 and 14 over 100.\<close>

lemma parseMonitorData_loads:
  assumes "16 \<le> length data" and "parseMonitorData now data dev = Inr (s, dev')"
  shows "loadA s = of_int (u16le data 8) / 100 \<and> loadB s = of_int (u16le data 14) / 100"
  using assms by (auto simp: parseMonitorData_long)

lemma sint_word_of_int_32:
  fixes y :: int
  assumes "- (2 ^ 31) \<le> y" "y < 2 ^ 31"
  shows "sint (word_of_int y :: 32 word) = y"
  using assms by (simp add: sint_sbintrunc' signed_take_bit_int_eq_self)

lemma js_shl_16_small:
  assumes "0 \<le> x" "x < 32768"
  shows "js_shl x 16 = x * 65536"
proof -
  have "push_bit 16 (word_of_int x :: 32 word) = word_of_int (x * 65536)"
    by (simp add: push_bit_eq_mult)
  then have "js_shl x 16 = sint (word_of_int (x * 65536) :: 32 word)"
    by (simp only: js_shl_def) simp
  also have "\<dots> = x * 65536"
    using assms by (intro sint_word_of_int_32) simp_all
  finally show ?thesis .
qed

text \<open>
  While the high half of the tick counter is below \<open>0x8000\<close>, the decoded ticks are the
  low half plus the high half times \<open>2 ^ 16\<close>.
\<close>

lemma parseMonitorData_ticks_low_range:
  assumes "16 \<le> length data" and "u16le data 2 < 32768"
    and "parseMonitorData now data dev = Inr (s, dev')"
  shows "ticks s = u16le data 0 + u16le data 2 * 65536"
  using assms u16le_bounds [of data 2]
  by (auto simp: parseMonitorData_long js_shl_16_small)

text \<open>
  Claim C5. On every decode of a buffer of at least 16 bytes, for each cable on its own:
  a decoded position above 50000 is replaced in the emitted sample by the cable's
  last-good value, which stays as it was; a decoded position of at most 50000 is emitted
  as it is and becomes the new last-good value.
\<close>

theorem spike_filter_per_cable:
  assumes "16 \<le> length data"
  shows "\<exists>s dev'. parseMonitorData now data dev = Inr (s, dev') \<and>
    (if u16le data 4 > 50000
     then posA s = lastGoodPosA dev \<and> lastGoodPosA dev' = lastGoodPosA dev
     else posA s = u16le data 4 \<and> lastGoodPosA dev' = u16le data 4) \<and>
    (if u16le data 10 > 50000
     then posB s = lastGoodPosB dev \<and> lastGoodPosB dev' = lastGoodPosB dev
     else posB s = u16le data 10 \<and> lastGoodPosB dev' = u16le data 10)"
  using assms by (simp add: parseMonitorData_long)

text \<open>
  The example of the claim: with last-good A at 120, a decoded 60000 (bytes \<open>0x60 0xEA\<close>)
  emits 120 and keeps 120, while cable B decodes 300 (bytes \<open>0x2C 0x01\<close>), emits 300 and
  stores 300.
\<close>

theorem spike_filter_per_cable_witness:
  "16 \<le> length [0, 0, 0, 0, 0x60, 0xEA, 0, 0, 0, 0, 0x2C, 0x01, 0, 0, 0, 0 :: byte] \<and>
   (\<exists>s dev'. parseMonitorData 0 [0, 0, 0, 0, 0x60, 0xEA, 0, 0, 0, 0, 0x2C, 0x01, 0, 0, 0, 0]
                \<lparr>lastGoodPosA = 120, lastGoodPosB = 7\<rparr> = Inr (s, dev') \<and>
      posA s = 120 \<and> lastGoodPosA dev' = 120 \<and> posB s = 300 \<and> lastGoodPosB dev' = 300)"
  using spike_filter_per_cable
    [of "[0, 0, 0, 0, 0x60, 0xEA, 0, 0, 0, 0, 0x2C, 0x01, 0, 0, 0, 0]" 0
        "\<lparr>lastGoodPosA = 120, lastGoodPosB = 7\<rparr>"]
  by (simp add: u16le_def)

text \<open>
  Claim C6. A buffer shorter than 16 bytes decodes, without raising, to a sample whose
  ticks, positions and loads are zero and whose raw field is the buffer
  (\<open>parseMonitorData_short\<close>); on at least 16 bytes the loads are the u16 at offsets 8 and
  14 divided by 100 (\<open>parseMonitorData_loads\<close>), and the ticks are meant to be the u16 at
  offset 0 plus the u16 at offset 2 shifted left by 16. The last part holds only while the
  high half is below \<open>0x8000\<close> (\<open>parseMonitorData_ticks_low_range\<close>): the shift is the
  32-bit signed \<^verbatim>\<open>f1 << 16\<close>, so with the high half at \<open>0x8000\<close> the reconstructed
  32-bit tick counter is \<open>- 2147483648\<close> and not \<open>32768 * 65536 = 2147483648\<close>.
\<close>

theorem ticks_negative_at_high_half:
  "parseMonitorData 0 [0, 0, 0, 0x80, 0, 0, 0, 0, 0, 0, 0, 0, 0, 0, 0, 0]
     \<lparr>lastGoodPosA = 0, lastGoodPosB = 0\<rparr>
   = Inr (\<lparr>timestamp = 0, ticks = - 2147483648, posA = 0, posB = 0, loadA = 0, loadB = 0,
           raw = [0, 0, 0, 0x80, 0, 0, 0, 0, 0, 0, 0, 0, 0, 0, 0, 0]\<rparr>,
          \<lparr>lastGoodPosA = 0, lastGoodPosB = 0\<rparr>)
   \<and> u16le [0, 0, 0, 0x80, 0, 0, 0, 0, 0, 0, 0, 0, 0, 0, 0, 0] 0
       + u16le [0, 0, 0, 0x80, 0, 0, 0, 0, 0, 0, 0, 0, 0, 0, 0, 0] 2 * 65536 = 2147483648"
  by (simp add: parseMonitorData_long u16le_def js_shl_def)

section \<open>Properties of the rep-notification handler\<close>

subsection \<open>Decoding and the two halves of the handler\<close>

lemma readU16s_even:
  assumes "even (length data)" "2 * i \<le> length data"
  shows "readU16s data i acc = Inr (acc @ map (\<lambda>k. u16le data (2 * k)) [i..<length data div 2])"
  using assms
proof (induction data i acc rule: readU16s.induct)
  case (1 data i acc)
  show ?case
  proof (cases "2 * i < length data")
    case True
    with "1.prems" have le: "2 * i + 2 \<le> length data" by presburger
    then have g: "getUint16 data (i * 2) = Inr (u16le data (2 * i))"
      by (simp add: getUint16_def mult.commute)
    from True have c: "real i < real (length data) / 2" by simp
    from le have lt: "i < length data div 2" by simp
    have IH: "readU16s data (i + 1) (acc @ [u16le data (2 * i)])
        = Inr ((acc @ [u16le data (2 * i)]) @ map (\<lambda>k. u16le data (2 * k)) [i + 1..<length data div 2])"
      using "1.IH"[OF c g] "1.prems" le by simp
    show ?thesis
      using c g IH lt by (subst readU16s.simps) (simp add: upt_conv_Cons)
  next
    case False
    with "1.prems" have e: "2 * i = length data" by simp
    then have "\<not> real i < real (length data) / 2" by simp
    then show ?thesis using e by (subst readU16s.simps) auto
  qed
qed

lemma readU16s_odd:
  assumes "odd (length data)" "2 * i \<le> length data"
  shows "readU16s data i acc = Inl RangeError"
  using assms
proof (induction data i acc rule: readU16s.induct)
  case (1 data i acc)
  from "1.prems" have lt: "2 * i < length data" by (metis even_mult_iff even_numeral le_neq_implies_less)
  then have c: "real i < real (length data) / 2" by simp
  show ?case
  proof (cases "2 * i + 2 \<le> length data")
    case True
    then have g: "getUint16 data (i * 2) = Inr (u16le data (2 * i))"
      by (simp add: getUint16_def mult.commute)
    have "readU16s data (i + 1) (acc @ [u16le data (2 * i)]) = Inl RangeError"
      using "1.IH"[OF c g] "1.prems" True by simp
    then show ?thesis using c g by (subst readU16s.simps) simp
  next
    case False
    then have g: "getUint16 data (i * 2) = Inl RangeError"
      by (simp add: getUint16_def mult.commute)
    then show ?thesis using c by (subst readU16s.simps) simp
  qed
qed


lemma handleRepNotification_decoded:
  assumes "even (length data)" "6 \<le> length data"
  shows "handleRepNotification now data st =
    (case (currentSampleRef st, currentWorkout st) of
       (Some sample, Some workout) \<Rightarrow>
         Inr (fst (trackBottom now sample (u16le data 4) st (fst (trackTop sample (u16le data 0) st))),
              [AddLog ''Rep notification'' info] @ snd (trackTop sample (u16le data 0) st)
                @ snd (trackBottom now sample (u16le data 4) st (fst (trackTop sample (u16le data 0) st))))
     | _ \<Rightarrow> Inr (st, [AddLog ''Rep notification'' info]))"
proof -
  from assms have n: "3 \<le> length data div 2" by presburger
  have r: "readU16s data 0 [] = Inr (map (\<lambda>k. u16le data (2 * k)) [0..<length data div 2])"
    using readU16s_even [of data 0 "[]"] assms by simp
  show ?thesis
    using assms n
    by (simp add: handleRepNotification_def r bindE_def Let_def case_prod_beta
        split: option.splits)
qed

lemma handleRepNotification_short:
  "length data < 6 \<Longrightarrow> handleRepNotification now data st = Inr (st, [])"
  by (simp add: handleRepNotification_def)

lemma handleRepNotification_odd:
  assumes "odd (length data)" "6 \<le> length data"
  shows "handleRepNotification now data st = Inl RangeError"
  using assms readU16s_odd [of data 0 "[]"]
  by (simp add: handleRepNotification_def bindE_def)

lemma trackTop_keeps:
  "warmupReps (fst (trackTop s c st)) = warmupReps st"
  "workingReps (fst (trackTop s c st)) = workingReps st"
  "warmupTarget (fst (trackTop s c st)) = warmupTarget st"
  "currentWorkout (fst (trackTop s c st)) = currentWorkout st"
  "lastRepCounter (fst (trackTop s c st)) = lastRepCounter st"
  "bottomPositionsA (fst (trackTop s c st)) = bottomPositionsA st"
  "bottomPositionsB (fst (trackTop s c st)) = bottomPositionsB st"
  by (simp_all add: trackTop_def recordTopPosition_def updateRepRanges_def Let_def
      split: option.splits)

lemma trackTop_window: "getWindowSize (fst (trackTop s c st)) = getWindowSize st"
  by (simp add: getWindowSize_def trackTop_keeps)

lemma trackTop_first:
  "lastTopCounter st = None \<Longrightarrow> trackTop s c st = (st\<lparr>lastTopCounter := Some c\<rparr>, [])"
  by (simp add: trackTop_def)

lemma trackTop_event:
  assumes "lastTopCounter st = Some prev"
  shows "(AddLog ''TOP detected!'' success \<in> set (snd (trackTop s c st))) = (counterDelta c prev > 0)"
    and "lastTopCounter (fst (trackTop s c st)) = (if counterDelta c prev > 0 then Some c else Some prev)"
    and "topPositionsA (fst (trackTop s c st)) =
          (if counterDelta c prev > 0 then pushWindow (getWindowSize st) (posA s) (topPositionsA st)
           else topPositionsA st)"
    and "topPositionsB (fst (trackTop s c st)) =
          (if counterDelta c prev > 0 then pushWindow (getWindowSize st) (posB s) (topPositionsB st)
           else topPositionsB st)"
  using assms
  by (simp_all add: trackTop_def recordTopPosition_def updateRepRanges_def Let_def)

lemma trackTop_no_bottom_log:
  "AddLog ''BOTTOM detected!'' success \<notin> set (snd (trackTop s c st))"
  by (simp add: trackTop_def Let_def split: option.splits)

lemma trackBottom_no_top_log:
  "AddLog ''TOP detected!'' success \<notin> set (snd (trackBottom now s c st0 st))"
  by (simp add: trackBottom_def Let_def case_prod_beta split: option.splits)

lemma trackBottom_first:
  "lastRepCounter st = None \<Longrightarrow>
     trackBottom now s c st0 st = (st\<lparr>lastRepCounter := Some c\<rparr>, [])"
  by (simp add: trackBottom_def)

lemma trackBottom_idle:
  assumes "lastRepCounter st = Some prev" "\<not> counterDelta c prev > 0"
  shows "trackBottom now s c st0 st = (st\<lparr>lastRepCounter := Some c\<rparr>, [])"
  using assms by (simp add: trackBottom_def)

lemma trackBottom_warmup:
  assumes "lastRepCounter st = Some prev" "counterDelta c prev > 0"
    and "warmupReps st0 + workingReps st0 < warmupTarget st0"
  shows "trackBottom now s c st0 st =
    ((recordBottomPosition (posA s) (posB s) st)
       \<lparr>currentWorkout :=
          (if warmupReps st + 1 = warmupTarget st0
           then map_option (\<lambda>workout. workout\<lparr>warmupEndTime := Some now\<rparr>) (currentWorkout st)
           else currentWorkout st),
        warmupReps := warmupReps st + 1,
        lastRepCounter := Some c\<rparr>,
     [AddLog ''BOTTOM detected!'' success, AddLog ''Warmup rep complete'' success])"
  using assms
  by (simp add: trackBottom_def recordBottomPosition_def updateRepRanges_def Let_def)

lemma trackBottom_working:
  assumes "lastRepCounter st = Some prev" "counterDelta c prev > 0"
    and "\<not> warmupReps st0 + workingReps st0 < warmupTarget st0"
  shows "trackBottom now s c st0 st =
    ((recordBottomPosition (posA s) (posB s) st)
       \<lparr>workingReps := workingReps st + 1, lastRepCounter := Some c\<rparr>,
     [AddLog ''BOTTOM detected!'' success, AddLog ''Working rep complete'' success] @
     (if \<not> stopAtTop st0 \<and> \<not> isJustLiftMode st0 \<and> targetReps st0 > 0 \<and>
         workingReps st + 1 \<ge> targetReps st0
      then [AddLog ''Target reps reached! Auto-completing workout...'' success, OnWorkoutComplete]
      else []))"
  using assms
  by (simp add: trackBottom_def recordBottomPosition_def updateRepRanges_def Let_def)


lemma handleRepNotification_active:
  assumes "currentSampleRef st = Some s" "currentWorkout st = Some w"
    and "even (length data)" "6 \<le> length data"
  shows "handleRepNotification now data st =
     Inr (fst (trackBottom now s (u16le data 4) st (fst (trackTop s (u16le data 0) st))),
          [AddLog ''Rep notification'' info] @ snd (trackTop s (u16le data 0) st)
            @ snd (trackBottom now s (u16le data 4) st (fst (trackTop s (u16le data 0) st))))"
  using assms by (simp add: handleRepNotification_decoded)

lemma trackBottom_keeps_top:
  "lastTopCounter (fst (trackBottom now s c st0 st)) = lastTopCounter st"
  "topPositionsA (fst (trackBottom now s c st0 st)) = topPositionsA st"
  "topPositionsB (fst (trackBottom now s c st0 st)) = topPositionsB st"
  by (simp_all add: trackBottom_def recordBottomPosition_def updateRepRanges_def Let_def
      case_prod_beta split: option.splits)

lemma trackBottom_event:
  assumes "lastRepCounter st = Some prev"
  shows "(AddLog ''BOTTOM detected!'' success \<in> set (snd (trackBottom now s c st0 st)))
           = (counterDelta c prev > 0)"
  using assms by (simp add: trackBottom_def Let_def case_prod_beta)

lemma trackBottom_counter:
  "lastRepCounter (fst (trackBottom now s c st0 st)) = Some c"
  by (simp add: trackBottom_def Let_def case_prod_beta split: option.splits)

lemma oldSchoolStarted_eq:
  "oldSchoolStarted = \<lparr>currentWorkout = Some \<lparr>workoutMode = ''Old School'', weightKg = 20,
        workoutTargetReps = 10, startTime = 0, warmupEndTime = None, endTime = None\<rparr>,
     warmupReps = 0, workingReps = 0, warmupTarget = 3, targetReps = 10,
     isJustLiftMode = False, stopAtTop = False, autoStopProgress = 0, maxPos = 1000,
     liveStats = (100, 100, 0, 0, 0), repRanges = emptyRanges,
     topPositionsA = [], bottomPositionsA = [], topPositionsB = [], bottomPositionsB = [],
     lastTopCounter = None, lastRepCounter = None, autoStopStartTime = None,
     currentSampleRef = Some (sampleAt 100 100)\<rparr>"
  by (simp add: oldSchoolStarted_def handleMonitorSample_def startWorkout_def initialEngine_def
      WARMUP_TARGET_DEFAULT_def sampleAt_def Let_def)

lemma recordBottomPosition_fields:
  "bottomPositionsA (recordBottomPosition a b st) = pushWindow (getWindowSize st) a (bottomPositionsA st)"
  "bottomPositionsB (recordBottomPosition a b st) = pushWindow (getWindowSize st) b (bottomPositionsB st)"
  "warmupReps (recordBottomPosition a b st) = warmupReps st"
  "workingReps (recordBottomPosition a b st) = workingReps st"
  "currentWorkout (recordBottomPosition a b st) = currentWorkout st"
  by (simp_all add: recordBottomPosition_def updateRepRanges_def Let_def)

subsection \<open>Payloads of odd length\<close>

text \<open>
  Claim C8. The handler is meant never to raise: payloads shorter than 6 bytes are ignored
  (\<open>handleRepNotification_short\<close>) and payloads of even length are decoded without an
  out-of-bounds read (\<open>handleRepNotification_decoded\<close>). A payload of odd length of at
  least 7 bytes is not covered: the loop bound \<^verbatim>\<open>data.length / 2\<close> is not an integer, the
  last iteration reads two bytes where one is left, and the \<^verbatim>\<open>DataView\<close> throws
  (\<open>handleRepNotification_odd\<close>). Here on seven zero bytes, in any state.
\<close>

theorem rep_handler_raises_on_odd_length:
  "handleRepNotification now [0, 0, 0, 0, 0, 0, 0] st = Inl RangeError"
  by (simp add: handleRepNotification_odd)

subsection \<open>Notifications that find no sample or no workout\<close>

text \<open>
  Claim C9. A rep notification that arrives before any monitor sample, or while no workout
  is active, leaves the whole engine state as it was and invokes neither callback
  whenever the handler returns; a payload that decodes (even length, at least 6 bytes) is
  logged and dropped. The counters are therefore not initialised by it: if they were
  unset, the next decodable notification that finds a sample and a workout only records
  both counters and produces no event.
\<close>

theorem dropped_notification:
  assumes "currentSampleRef st = None \<or> currentWorkout st = None"
  shows "(\<forall>st' fx. handleRepNotification now data st = Inr (st', fx) \<longrightarrow>
            st' = st \<and> OnAutoStop \<notin> set fx \<and> OnWorkoutComplete \<notin> set fx) \<and>
         (even (length data) \<and> 6 \<le> length data \<longrightarrow>
            handleRepNotification now data st = Inr (st, [AddLog ''Rep notification'' info])) \<and>
         (lastTopCounter st = None \<and> lastRepCounter st = None \<and>
          even (length data') \<and> 6 \<le> length data' \<longrightarrow>
            handleRepNotification now' data' (st\<lparr>currentWorkout := Some w, currentSampleRef := Some s\<rparr>)
              = Inr (st\<lparr>currentWorkout := Some w, currentSampleRef := Some s,
                         lastTopCounter := Some (u16le data' 0),
                         lastRepCounter := Some (u16le data' 4)\<rparr>,
                     [AddLog ''Rep notification'' info]))"
proof (intro conjI allI impI)
  fix st' fx
  assume r: "handleRepNotification now data st = Inr (st', fx)"
  consider "length data < 6" | "6 \<le> length data" "odd (length data)"
    | "6 \<le> length data" "even (length data)" by linarith
  then have "st' = st \<and> OnAutoStop \<notin> set fx \<and> OnWorkoutComplete \<notin> set fx"
  proof cases
    case 1
    with r show ?thesis by (simp add: handleRepNotification_short)
  next
    case 2
    with r show ?thesis by (simp add: handleRepNotification_odd)
  next
    case 3
    with r assms show ?thesis
      by (auto simp: handleRepNotification_decoded split: option.splits)
  qed
  then show "st' = st" "OnAutoStop \<notin> set fx" "OnWorkoutComplete \<notin> set fx" by simp_all
next
  assume "even (length data) \<and> 6 \<le> length data"
  with assms show "handleRepNotification now data st = Inr (st, [AddLog ''Rep notification'' info])"
    by (auto simp: handleRepNotification_decoded split: option.splits)
next
  assume a: "lastTopCounter st = None \<and> lastRepCounter st = None \<and>
          even (length data') \<and> 6 \<le> length data'"
  then show "handleRepNotification now' data' (st\<lparr>currentWorkout := Some w, currentSampleRef := Some s\<rparr>)
              = Inr (st\<lparr>currentWorkout := Some w, currentSampleRef := Some s,
                         lastTopCounter := Some (u16le data' 0),
                         lastRepCounter := Some (u16le data' 4)\<rparr>,
                     [AddLog ''Rep notification'' info])"
    by (simp add: handleRepNotification_decoded trackTop_first trackBottom_first)
qed

theorem dropped_notification_witness:
  "(currentSampleRef initialEngine = None \<or> currentWorkout initialEngine = None) \<and>
   even (length (repPayload 1 1)) \<and> 6 \<le> length (repPayload 1 1) \<and>
   handleRepNotification 10 (repPayload 1 1) initialEngine
     = Inr (initialEngine, [AddLog ''Rep notification'' info]) \<and>
   lastTopCounter initialEngine = None \<and> lastRepCounter initialEngine = None \<and>
   handleRepNotification 20 (repPayload 2 2)
     (initialEngine\<lparr>currentWorkout := Some \<lparr>workoutMode = ''Old School'', weightKg = 20,
          workoutTargetReps = 10, startTime = 0, warmupEndTime = None, endTime = None\<rparr>,
        currentSampleRef := Some (sampleAt 100 100)\<rparr>)
     = Inr (initialEngine\<lparr>currentWorkout := Some \<lparr>workoutMode = ''Old School'', weightKg = 20,
          workoutTargetReps = 10, startTime = 0, warmupEndTime = None, endTime = None\<rparr>,
        currentSampleRef := Some (sampleAt 100 100),
        lastTopCounter := Some 2, lastRepCounter := Some 2\<rparr>,
            [AddLog ''Rep notification'' info])"
proof -
  have h: "currentSampleRef initialEngine = None \<or> currentWorkout initialEngine = None"
    and c: "lastTopCounter initialEngine = None" "lastRepCounter initialEngine = None"
    by (simp_all add: initialEngine_def)
  have p: "even (length (repPayload 1 1))" "6 \<le> length (repPayload 1 1)"
    "even (length (repPayload 2 2))" "6 \<le> length (repPayload 2 2)"
    "u16le (repPayload 2 2) 0 = 2" "u16le (repPayload 2 2) 4 = 2"
    by (simp_all add: repPayload_def u16le_def)
  note t = dropped_notification [OF h, where now = 10
      and data = "repPayload 1 1" and data' = "repPayload 2 2" and now' = 20
      and w = "\<lparr>workoutMode = ''Old School'', weightKg = 20,
        workoutTargetReps = 10, startTime = 0, warmupEndTime = None, endTime = None\<rparr>"
      and s = "sampleAt 100 100"]
  from t h c p show ?thesis by simp
qed

subsection \<open>The wrap-aware counter delta\<close>

text \<open>
  Claim C2. For a notification handled during an active workout with a sample present:
  if a counter has been observed before as \<open>prev\<close> and now reads \<open>c\<close>, its event (TOP for
  the first u16, BOTTOM for the third) fires exactly when the delta, \<open>c - prev\<close> if
  \<open>c \<ge> prev\<close> and \<open>0xFFFF - prev + c + 1\<close> otherwise, is positive; the first observation
  of a counter only records it, fires no event and changes neither windows nor rep
  counts. For \<open>prev = 65530\<close> and \<open>c = 4\<close> the delta is 10.
\<close>

theorem wrap_aware_counter_delta:
  assumes "currentSampleRef st = Some s" "currentWorkout st = Some w"
    and "even (length data)" "6 \<le> length data"
  shows "\<exists>st' fx. handleRepNotification now data st = Inr (st', fx) \<and>
    (case lastTopCounter st of
       None \<Rightarrow> lastTopCounter st' = Some (u16le data 0) \<and>
               AddLog ''TOP detected!'' success \<notin> set fx \<and>
               topPositionsA st' = topPositionsA st \<and> topPositionsB st' = topPositionsB st
     | Some prev \<Rightarrow>
         (AddLog ''TOP detected!'' success \<in> set fx) =
           ((if u16le data 0 \<ge> prev then u16le data 0 - prev
             else 0xFFFF - prev + u16le data 0 + 1) > 0)) \<and>
    (case lastRepCounter st of
       None \<Rightarrow> lastRepCounter st' = Some (u16le data 4) \<and>
               AddLog ''BOTTOM detected!'' success \<notin> set fx \<and>
               warmupReps st' = warmupReps st \<and> workingReps st' = workingReps st \<and>
               bottomPositionsA st' = bottomPositionsA st \<and>
               bottomPositionsB st' = bottomPositionsB st
     | Some prev \<Rightarrow>
         (AddLog ''BOTTOM detected!'' success \<in> set fx) =
           ((if u16le data 4 \<ge> prev then u16le data 4 - prev
             else 0xFFFF - prev + u16le data 4 + 1) > 0)) \<and>
    counterDelta 4 65530 = 10"
proof -
  let ?t = "trackTop s (u16le data 0) st"
  let ?b = "trackBottom now s (u16le data 4) st (fst ?t)"
  have top: "case lastTopCounter st of
       None \<Rightarrow> lastTopCounter (fst ?b) = Some (u16le data 0) \<and>
               AddLog ''TOP detected!'' success \<notin> set ([AddLog ''Rep notification'' info] @ snd ?t @ snd ?b) \<and>
               topPositionsA (fst ?b) = topPositionsA st \<and> topPositionsB (fst ?b) = topPositionsB st
     | Some prev \<Rightarrow>
         (AddLog ''TOP detected!'' success \<in> set ([AddLog ''Rep notification'' info] @ snd ?t @ snd ?b)) =
           ((if u16le data 0 \<ge> prev then u16le data 0 - prev
             else 0xFFFF - prev + u16le data 0 + 1) > 0)"
  proof (cases "lastTopCounter st")
    case None
    then show ?thesis
      by (simp add: trackBottom_keeps_top trackBottom_no_top_log trackTop_first)
  next
    case (Some prev)
    then show ?thesis
      using trackTop_event(1) [OF Some, of s "u16le data 0"]
      by (simp add: trackBottom_no_top_log counterDelta_def)
  qed
  have bot: "case lastRepCounter st of
       None \<Rightarrow> lastRepCounter (fst ?b) = Some (u16le data 4) \<and>
               AddLog ''BOTTOM detected!'' success \<notin> set ([AddLog ''Rep notification'' info] @ snd ?t @ snd ?b) \<and>
               warmupReps (fst ?b) = warmupReps st \<and> workingReps (fst ?b) = workingReps st \<and>
               bottomPositionsA (fst ?b) = bottomPositionsA st \<and>
               bottomPositionsB (fst ?b) = bottomPositionsB st
     | Some prev \<Rightarrow>
         (AddLog ''BOTTOM detected!'' success \<in> set ([AddLog ''Rep notification'' info] @ snd ?t @ snd ?b)) =
           ((if u16le data 4 \<ge> prev then u16le data 4 - prev
             else 0xFFFF - prev + u16le data 4 + 1) > 0)"
  proof (cases "lastRepCounter st")
    case None
    then have "lastRepCounter (fst ?t) = None" by (simp add: trackTop_keeps)
    then show ?thesis
      using None by (simp add: trackBottom_first trackTop_no_bottom_log trackTop_keeps)
  next
    case (Some prev)
    then have "lastRepCounter (fst ?t) = Some prev" by (simp add: trackTop_keeps)
    from trackBottom_event [OF this, of now s "u16le data 4" st] Some
    show ?thesis
      by (simp add: trackTop_no_bottom_log counterDelta_def)
  qed
  have "counterDelta 4 65530 = 10" by (simp add: counterDelta_def)
  with top bot show ?thesis
    unfolding handleRepNotification_active [OF assms] by blast
qed

text \<open>With both counters last seen at 65530, a notification reading 4 fires TOP and BOTTOM.\<close>

theorem wrap_aware_counter_delta_witness:
  "currentSampleRef (oldSchoolStarted\<lparr>lastTopCounter := Some 65530, lastRepCounter := Some 65530\<rparr>)
     = Some (sampleAt 100 100) \<and>
   even (length (repPayload 4 4)) \<and> 6 \<le> length (repPayload 4 4) \<and>
   (\<exists>st' fx. handleRepNotification 10 (repPayload 4 4)
       (oldSchoolStarted\<lparr>lastTopCounter := Some 65530, lastRepCounter := Some 65530\<rparr>) = Inr (st', fx) \<and>
      AddLog ''TOP detected!'' success \<in> set fx \<and>
      AddLog ''BOTTOM detected!'' success \<in> set fx)"
  using wrap_aware_counter_delta
    [of "oldSchoolStarted\<lparr>lastTopCounter := Some 65530, lastRepCounter := Some 65530\<rparr>"
        "sampleAt 100 100"
        "\<lparr>workoutMode = ''Old School'', weightKg = 20,
        workoutTargetReps = 10, startTime = 0, warmupEndTime = None, endTime = None\<rparr>"
        "repPayload 4 4" 10]
  by (auto simp: oldSchoolStarted_eq repPayload_def u16le_def)

subsection \<open>Counting a rep at the bottom\<close>

text \<open>
  Claim C7, as the code has it. For every BOTTOM event during an active workout the
  current positions are pushed onto the bottom windows (with the window size of the
  phase before the rep); then the warmup counter is incremented while
  \<open>warmupReps + workingReps < warmupTarget\<close>, and the working counter otherwise; the rep
  that brings the warmup counter to \<open>warmupTarget\<close> stamps the warmup-end time; and when
  neither stop-at-top nor unlimited, the working rep that reaches \<open>targetReps\<close> invokes the
  completion callback. Since the first notification after a start only initialises the
  counters, a 10-rep program fed four notifications with increasing counters shows 3
  warmup reps, 0 working reps and a warmup end, and a fifth notification shows 1 working
  rep.
\<close>

theorem bottom_event_counts_rep:
  assumes active: "currentSampleRef st = Some s" "currentWorkout st = Some w"
    and payload: "even (length data)" "6 \<le> length data"
    and bottom: "lastRepCounter st = Some prev" "counterDelta (u16le data 4) prev > 0"
    and counts: "0 \<le> workingReps st"
  shows "(\<exists>st' fx. handleRepNotification now data st = Inr (st', fx) \<and>
      bottomPositionsA st' = pushWindow (getWindowSize st) (posA s) (bottomPositionsA st) \<and>
      bottomPositionsB st' = pushWindow (getWindowSize st) (posB s) (bottomPositionsB st) \<and>
      (if warmupReps st + workingReps st < warmupTarget st
       then warmupReps st' = warmupReps st + 1 \<and> workingReps st' = workingReps st \<and>
            currentWorkout st' =
              (if warmupReps st + 1 = warmupTarget st then Some (w\<lparr>warmupEndTime := Some now\<rparr>)
               else Some w)
       else workingReps st' = workingReps st + 1 \<and> warmupReps st' = warmupReps st \<and>
            currentWorkout st' = Some w \<and>
            (\<not> stopAtTop st \<and> \<not> isJustLiftMode st \<and> workingReps st + 1 = targetReps st
               \<longrightarrow> OnWorkoutComplete \<in> set fx))) \<and>
    repSummary (feedReps [(10, repPayload 1 1), (20, repPayload 2 2), (30, repPayload 3 3),
                          (40, repPayload 4 4)] oldSchoolStarted) = Some (3, 0, Some 40) \<and>
    repSummary (feedReps [(10, repPayload 1 1), (20, repPayload 2 2), (30, repPayload 3 3),
                          (40, repPayload 4 4), (50, repPayload 5 5)] oldSchoolStarted)
      = Some (3, 1, Some 40)"
proof -
  let ?t = "fst (trackTop s (u16le data 0) st)"
  let ?b = "trackBottom now s (u16le data 4) st ?t"
  have prev: "lastRepCounter ?t = Some prev"
    using bottom(1) by (simp add: trackTop_keeps)
  have general: "bottomPositionsA (fst ?b) = pushWindow (getWindowSize st) (posA s) (bottomPositionsA st) \<and>
      bottomPositionsB (fst ?b) = pushWindow (getWindowSize st) (posB s) (bottomPositionsB st) \<and>
      (if warmupReps st + workingReps st < warmupTarget st
       then warmupReps (fst ?b) = warmupReps st + 1 \<and> workingReps (fst ?b) = workingReps st \<and>
            currentWorkout (fst ?b) =
              (if warmupReps st + 1 = warmupTarget st then Some (w\<lparr>warmupEndTime := Some now\<rparr>)
               else Some w)
       else workingReps (fst ?b) = workingReps st + 1 \<and> warmupReps (fst ?b) = warmupReps st \<and>
            currentWorkout (fst ?b) = Some w \<and>
            (\<not> stopAtTop st \<and> \<not> isJustLiftMode st \<and> workingReps st + 1 = targetReps st
               \<longrightarrow> OnWorkoutComplete \<in> set ([AddLog ''Rep notification'' info]
                     @ snd (trackTop s (u16le data 0) st) @ snd ?b)))"
  proof (cases "warmupReps st + workingReps st < warmupTarget st")
    case True
    show ?thesis
      using True active(2)
      by (simp add: trackBottom_warmup [OF prev bottom(2) True] recordBottomPosition_fields
          trackTop_keeps trackTop_window)
  next
    case False
    show ?thesis
      using False active(2) counts
      by (auto simp: trackBottom_working [OF prev bottom(2) False] recordBottomPosition_fields
          trackTop_keeps trackTop_window)
  qed
  have four: "repSummary (feedReps [(10, repPayload 1 1), (20, repPayload 2 2), (30, repPayload 3 3),
                          (40, repPayload 4 4)] oldSchoolStarted) = Some (3, 0, Some 40)"
    by code_simp
  have five: "repSummary (feedReps [(10, repPayload 1 1), (20, repPayload 2 2), (30, repPayload 3 3),
                          (40, repPayload 4 4), (50, repPayload 5 5)] oldSchoolStarted)
      = Some (3, 1, Some 40)"
    by code_simp
  from general four five show ?thesis
    unfolding handleRepNotification_active [OF active payload] by blast
qed

theorem bottom_event_counts_rep_witness:
  "currentSampleRef (oldSchoolStarted\<lparr>lastTopCounter := Some 1, lastRepCounter := Some 1\<rparr>)
     = Some (sampleAt 100 100) \<and>
   lastRepCounter (oldSchoolStarted\<lparr>lastTopCounter := Some 1, lastRepCounter := Some 1\<rparr>) = Some 1 \<and>
   counterDelta (u16le (repPayload 2 2) 4) 1 > 0 \<and>
   (\<exists>st' fx. handleRepNotification 20 (repPayload 2 2)
       (oldSchoolStarted\<lparr>lastTopCounter := Some 1, lastRepCounter := Some 1\<rparr>) = Inr (st', fx) \<and>
      bottomPositionsA st' = [100] \<and> bottomPositionsB st' = [100] \<and>
      warmupReps st' = 1 \<and> workingReps st' = 0)"
  using bottom_event_counts_rep
    [of "oldSchoolStarted\<lparr>lastTopCounter := Some 1, lastRepCounter := Some 1\<rparr>"
        "sampleAt 100 100"
        "\<lparr>workoutMode = ''Old School'', weightKg = 20,
        workoutTargetReps = 10, startTime = 0, warmupEndTime = None, endTime = None\<rparr>"
        "repPayload 2 2" 1 20]
  by (auto simp: oldSchoolStarted_eq repPayload_def u16le_def counterDelta_def pushWindow_def
      getWindowSize_def WINDOW_SIZE_WARMUP_def sampleAt_def)

text \<open>
  Claim C7 as stated gives the counts 3, 0 and a recorded warmup end after three
  notifications. After three notifications the engine has counted two warmup reps and
  has no warmup end.
\<close>

theorem three_notifications_give_two_reps:
  "repSummary (feedReps [(10, repPayload 1 1), (20, repPayload 2 2), (30, repPayload 3 3)]
                 oldSchoolStarted) = Some (2, 0, None)"
  by code_simp

section \<open>Properties of the auto-stop check\<close>

lemma calculateAverage_Nil: "calculateAverage [] = None"
  by (simp add: calculateAverage_def)

lemma calculateAverage_two: "calculateAverage [a, a] = Some a"
  by (simp add: calculateAverage_def js_round_def)

lemma checkAutoStop_unset_bottoms:
  assumes "minRepPosA ranges = None \<or> minRepPosA ranges = Some 0"
    and "minRepPosB ranges = None \<or> minRepPosB ranges = Some 0"
  shows "checkAutoStop now sample ranges st = (st\<lparr>autoStopProgress := 0\<rparr>, [])"
  using assms by (auto simp: checkAutoStop_def falsy_def)

text \<open>
  When cable A is eligible and in the danger zone, the progress is
  \<open>min (elapsed / 5000) 1\<close> from the instant the timer was armed, the timer stays armed,
  and the callback is invoked on this sample if \<open>elapsed \<ge> 5000\<close>.
\<close>

lemma checkAutoStop_in_zone_A:
  assumes "minRepPosA ranges = Some m" "m \<noteq> 0"
    and "orZero (maxRepPosA ranges) - m > 50"
    and "real_of_int (posA sample) \<le> of_int m + of_int (orZero (maxRepPosA ranges) - m) * 0.05"
  shows "checkAutoStop now sample ranges st =
    (let start = (case autoStopStartTime st of None \<Rightarrow> now | Some t \<Rightarrow> t);
         elapsed = now - start
     in (st\<lparr>autoStopStartTime := Some start,
            autoStopProgress := min (of_int elapsed / 5000) 1\<rparr>,
         (if autoStopStartTime st = None
          then [AddLog ''Near bottom of range, starting auto-stop timer (5s)...'' info] else [])
         @ (if elapsed \<ge> 5000
            then [AddLog ''Auto-stop triggered! Finishing workout...'' success, OnAutoStop]
            else [])))"
proof -
  have f: "\<not> falsy (minRepPosA ranges)"
    using assms(1,2) by (simp add: falsy_def)
  have o: "orZero (minRepPosA ranges) = m"
    using assms(1) by (simp add: orZero_def)
  show ?thesis
  proof (cases "autoStopStartTime st")
    case None
    then show ?thesis
      using assms f o
      by (simp add: checkAutoStop_def Let_def AUTO_STOP_DURATION_def split: option.split)
  next
    case (Some t)
    then show ?thesis
      using assms f o
      by (simp add: checkAutoStop_def Let_def AUTO_STOP_DURATION_def split: option.split)
  qed
qed

text \<open>
  Claim C10. In unlimited mode, when both cables' bottom averages are unset or exactly 0,
  a monitor sample sets the auto-stop progress to 0, leaves the timer as it was (it is not
  armed) and invokes no callback, whatever the top averages and the position are.
\<close>

theorem no_auto_stop_without_bottom_average:
  assumes "isJustLiftMode st"
    and "minRepPosA (repRanges st) = None \<or> minRepPosA (repRanges st) = Some 0"
    and "minRepPosB (repRanges st) = None \<or> minRepPosB (repRanges st) = Some 0"
  shows "\<exists>st'. handleMonitorSample now sample st = (st', []) \<and>
           autoStopProgress st' = 0 \<and> autoStopStartTime st' = autoStopStartTime st"
  using assms
  by (simp add: handleMonitorSample_def Let_def checkAutoStop_unset_bottoms)

text \<open>
  With bottoms at 0 and tops at 100 the range is 100, above 50, and position 3 is within
  the bottom 5% of it; the timer still is not armed.
\<close>

theorem no_auto_stop_without_bottom_average_witness:
  "isJustLiftMode bottomAtZero \<and> minRepPosA (repRanges bottomAtZero) = Some 0 \<and>
   maxRepPosA (repRanges bottomAtZero) = Some 100 \<and>
   minRepPosB (repRanges bottomAtZero) = None \<and>
   (\<exists>st'. handleMonitorSample 7 (sampleAt 3 0) bottomAtZero = (st', []) \<and>
      autoStopProgress st' = 0 \<and> autoStopStartTime st' = None)"
proof -
  have h: "isJustLiftMode bottomAtZero" "minRepPosA (repRanges bottomAtZero) = Some 0"
    "maxRepPosA (repRanges bottomAtZero) = Some 100"
    "minRepPosB (repRanges bottomAtZero) = None" "autoStopStartTime bottomAtZero = None"
    by (simp_all add: bottomAtZero_def updateRepRanges_def startWorkout_def initialEngine_def
        calculateAverage_two calculateAverage_Nil)
  from no_auto_stop_without_bottom_average [of bottomAtZero 7 "sampleAt 3 0"] h
  show ?thesis by simp
qed

text \<open>
  Claim C1. In unlimited mode, for a continuous run of samples in the danger zone, the
  auto-stop callback is meant to be invoked exactly once, when the elapsed time since the
  first such sample reaches 5000 ms. The timer is not cleared when the callback is invoked
  and the workout is not completed, so every later sample of the same run invokes it again
  (\<open>checkAutoStop_in_zone_A\<close>). Here cable A has range 60 (bottom 200, top 260, danger
  zone up to 203) and three samples at position 202 arrive at 0, 5000 and 5100 ms: the
  callback is invoked twice.
\<close>

theorem auto_stop_fires_again:
  "count_list (snd (feedSamples [(0, sampleAt 202 0), (5000, sampleAt 202 0), (5100, sampleAt 202 0)]
                      justLiftEstablished)) OnAutoStop = 2"
  by code_simp

section \<open>Properties of the GATT operation queue\<close>

lemma queueInv_new: "queueInv newDevice"
  by (simp add: queueInv_def newDevice_def)

lemma queueInv_submit: "queueInv st \<Longrightarrow> queueInv (queueGattOperation st)"
  by (cases "inFlight st")
     (auto simp: queueInv_def queueGattOperation_def processGattQueue_def Let_def)

lemma inFlight_single:
  assumes "queueInv st" "op \<in> set (inFlight st)"
  shows "inFlight st = [op]"
  using assms by (cases "inFlight st") (auto simp: queueInv_def)

lemma settle_fields:
  assumes "queueInv st" "op \<in> set (inFlight st)"
  shows "completions (settleOperation op outcome st) = completions st @ [(op, outcome)]"
    and "inFlight (settleOperation op outcome st) = take 1 (gattQueue st)"
    and "gattQueue (settleOperation op outcome st) = drop 1 (gattQueue st)"
    and "submitted (settleOperation op outcome st) = submitted st"
    and "gattBusy (settleOperation op outcome st) = (gattQueue st \<noteq> [])"
proof -
  from assms have one: "inFlight st = [op]"
    by (rule inFlight_single)
  then show "completions (settleOperation op outcome st) = completions st @ [(op, outcome)]"
    and "inFlight (settleOperation op outcome st) = take 1 (gattQueue st)"
    and "gattQueue (settleOperation op outcome st) = drop 1 (gattQueue st)"
    and "submitted (settleOperation op outcome st) = submitted st"
    and "gattBusy (settleOperation op outcome st) = (gattQueue st \<noteq> [])"
    by (cases "gattQueue st"; simp add: settleOperation_def processGattQueue_def Let_def)+
qed

lemma queueInv_settle:
  assumes "queueInv st" "op \<in> set (inFlight st)"
  shows "queueInv (settleOperation op outcome st)"
proof -
  note f = settle_fields [OF assms, of outcome]
  from assms(1) have eq: "map fst (completions st) @ inFlight st @ gattQueue st = [0..<submitted st]"
    by (simp add: queueInv_def)
  show ?thesis
    unfolding queueInv_def using eq inFlight_single [OF assms]
    by (cases "gattQueue st") (simp_all add: f)
qed

lemma queueInv_run:
  "gattRun evs st = Some st' \<Longrightarrow> queueInv st \<Longrightarrow> queueInv st'"
proof (induction evs st rule: gattRun.induct)
  case (1 st)
  then show ?case by simp
next
  case (2 evs st)
  then show ?case by (simp add: queueInv_submit)
next
  case (3 op outcome evs st)
  then show ?case by (simp add: queueInv_settle split: if_splits)
qed

lemma settleAll_drains:
  assumes "queueInv st" "length rs = length (inFlight st @ gattQueue st)"
  shows "completions (settleAll rs st) = completions st @ zip (inFlight st @ gattQueue st) rs \<and>
         inFlight (settleAll rs st) = [] \<and> gattQueue (settleAll rs st) = []"
  using assms
proof (induction rs arbitrary: st)
  case Nil
  then show ?case by simp
next
  case (Cons r rs)
  from Cons.prems obtain op where one: "inFlight st = [op]"
    by (cases "inFlight st") (auto simp: queueInv_def)
  then have mem: "op \<in> set (inFlight st)" by simp
  note f = settle_fields [OF Cons.prems(1) mem, of r]
  have inv': "queueInv (settleOperation op r st)"
    by (rule queueInv_settle [OF Cons.prems(1) mem])
  have len: "length rs = length (inFlight (settleOperation op r st) @ gattQueue (settleOperation op r st))"
    using Cons.prems(2) one by (cases "gattQueue st") (simp_all add: f)
  from Cons.IH [OF inv' len] one show ?case
    by (cases "gattQueue st") (simp_all add: f)
qed


lemma three_submitted_one_rejected:
  "gattRun [Submit, Submit, Submit, Settle 0 Rejected] newDevice =
     Some afterFirstFailed"
  by (simp add: afterFirstFailed_def newDevice_def queueGattOperation_def settleOperation_def processGattQueue_def
      Let_def)

lemma later_operation_cannot_settle_first:
  "gattRun [Submit, Submit, Submit, Settle 1 Resolved] newDevice = None"
  by (simp add: newDevice_def queueGattOperation_def settleOperation_def processGattQueue_def
      Let_def)

text \<open>
  Claim C3. In every state the queue can reach from a new device, by any interleaving of
  submissions and completions: at most one operation is in flight; the operations
  completed so far, then the one in flight, then the queued ones are exactly the
  submitted operations in submission order, so callers are answered in submission order;
  when the operation in flight settles, with success or failure, only its own caller is
  answered and the head of the queue is started by the queue itself; and as the transport
  settles one operation after the other, the queue empties, each caller receiving its own
  outcome in submission order.
\<close>

theorem gatt_queue_serializes:
  assumes "gattRun evs newDevice = Some st"
  shows "length (inFlight st) \<le> 1 \<and>
         map fst (completions st) @ inFlight st @ gattQueue st = [0..<submitted st] \<and>
         (gattQueue st \<noteq> [] \<longrightarrow> inFlight st \<noteq> []) \<and>
         (\<forall>op outcome. op \<in> set (inFlight st) \<longrightarrow>
            completions (settleOperation op outcome st) = completions st @ [(op, outcome)] \<and>
            inFlight (settleOperation op outcome st) = take 1 (gattQueue st) \<and>
            gattQueue (settleOperation op outcome st) = drop 1 (gattQueue st)) \<and>
         (\<forall>rs. length rs = length (inFlight st @ gattQueue st) \<longrightarrow>
            completions (settleAll rs st) = completions st @ zip (inFlight st @ gattQueue st) rs \<and>
            inFlight (settleAll rs st) = [] \<and> gattQueue (settleAll rs st) = [])"
proof -
  have inv: "queueInv st"
    using queueInv_run [OF assms queueInv_new] .
  then have "length (inFlight st) \<le> 1"
    and "map fst (completions st) @ inFlight st @ gattQueue st = [0..<submitted st]"
    and "gattQueue st \<noteq> [] \<longrightarrow> inFlight st \<noteq> []"
    by (simp_all add: queueInv_def)
  moreover have "\<forall>op outcome. op \<in> set (inFlight st) \<longrightarrow>
            completions (settleOperation op outcome st) = completions st @ [(op, outcome)] \<and>
            inFlight (settleOperation op outcome st) = take 1 (gattQueue st) \<and>
            gattQueue (settleOperation op outcome st) = drop 1 (gattQueue st)"
    using settle_fields [OF inv] by blast
  moreover have "\<forall>rs. length rs = length (inFlight st @ gattQueue st) \<longrightarrow>
            completions (settleAll rs st) = completions st @ zip (inFlight st @ gattQueue st) rs \<and>
            inFlight (settleAll rs st) = [] \<and> gattQueue (settleAll rs st) = []"
    using settleAll_drains [OF inv] by blast
  ultimately show ?thesis by blast
qed

theorem gatt_queue_serializes_witness:
  "gattRun [Submit, Submit, Submit, Settle 0 Rejected] newDevice = Some afterFirstFailed \<and>
   completions (settleOperation 1 Resolved afterFirstFailed) = [(0, Rejected), (1, Resolved)] \<and>
   inFlight (settleOperation 1 Resolved afterFirstFailed) = [2] \<and>
   completions (settleAll [Resolved, Resolved] afterFirstFailed)
     = [(0, Rejected), (1, Resolved), (2, Resolved)] \<and>
   gattQueue (settleAll [Resolved, Resolved] afterFirstFailed) = []"
proof -
  note t = gatt_queue_serializes [OF three_submitted_one_rejected]
  have f: "inFlight afterFirstFailed = [1]" "gattQueue afterFirstFailed = [2]"
    "completions afterFirstFailed = [(0, Rejected)]"
    by (simp_all add: afterFirstFailed_def)
  from t f have a: "completions (settleOperation 1 Resolved afterFirstFailed)
      = [(0, Rejected), (1, Resolved)]"
    and b: "inFlight (settleOperation 1 Resolved afterFirstFailed) = [2]"
    by simp_all
  from t have "length [Resolved, Resolved] = length (inFlight afterFirstFailed @ gattQueue afterFirstFailed) \<longrightarrow>
      completions (settleAll [Resolved, Resolved] afterFirstFailed)
        = completions afterFirstFailed @ zip (inFlight afterFirstFailed @ gattQueue afterFirstFailed) [Resolved, Resolved] \<and>
      inFlight (settleAll [Resolved, Resolved] afterFirstFailed) = [] \<and>
      gattQueue (settleAll [Resolved, Resolved] afterFirstFailed) = []"
    by blast
  with f have c: "completions (settleAll [Resolved, Resolved] afterFirstFailed)
      = [(0, Rejected), (1, Resolved), (2, Resolved)]"
    and d: "gattQueue (settleAll [Resolved, Resolved] afterFirstFailed) = []"
    by simp_all
  from three_submitted_one_rejected a b c d show ?thesis by blast
qed

section \<open>Properties of the program frame\<close>

lemma le32_length: "length (le32 w) = 4" by (simp add: le32_def)
lemma le16_length: "length (le16 w) = 2" by (simp add: le16_def)

lemma viewSet_ok:
  "off + length bs \<le> length buf \<Longrightarrow>
     viewSet off bs buf = Inr (take off buf @ bs @ drop (off + length bs) buf)"
  by (simp add: viewSet_def)

lemma profile_length:
  "\<exists>profile. getModeProfile f32 m = Inr profile \<and> length profile = 32"
  by (cases m)
     (simp_all add: bindE_def writeU16LE_def writeI16LE_def writeF32LE_def viewSet_def
        le32_def le16_def)


lemma replicate_96: "replicate 96 (0::byte) = 
  [0,0,0,0,0,0,0,0, 0,0,0,0,0,0,0,0, 0,0,0,0,0,0,0,0, 0,0,0,0,0,0,0,0,
   0,0,0,0,0,0,0,0, 0,0,0,0,0,0,0,0, 0,0,0,0,0,0,0,0, 0,0,0,0,0,0,0,0,
   0,0,0,0,0,0,0,0, 0,0,0,0,0,0,0,0, 0,0,0,0,0,0,0,0, 0,0,0,0,0,0,0,0]"
  by (simp add: eval_nat_numeral)

lemma frame_shape:
  assumes "getModeProfile f32 (if isJustLift p then baseMode p else mode p) = Inr profile"
    and "length profile = 32"
  shows "buildProgramParams f32 p =
     Inr ([4, 0, 0, 0, (if isJustLift p then 0xff else word_of_int (reps p + 3)), 3, 3, 0]
          @ le32 (f32 5) @ le32 (f32 5) @ [0, 0, 0, 0]
          @ [0xfa, 0, 0xfa, 0, 0xc8, 0, 0x1e, 0] @ le32 (f32 5) @ [0, 0, 0, 0]
          @ [0xfa, 0, 0xfa, 0, 0xc8, 0, 0x1e, 0, 0xfa, 0, 0x50, 0]
          @ profile @ [0, 0, 0, 0]
          @ le32 (f32 (effectiveKg p)) @ le32 (f32 (perCableKg p))
          @ le32 (f32 (orZeroReal (progressionKg p))))"
proof (cases "isJustLift p")
  case True
  with assms show ?thesis
    by (simp add: buildProgramParams_def replicate_96 bindE_def putByte_def writeF32LE_def
        viewSet_def le32_def Let_def)
next
  case False
  with assms show ?thesis
    by (simp add: buildProgramParams_def replicate_96 bindE_def putByte_def writeF32LE_def
        viewSet_def le32_def Let_def)
qed


lemma orZeroReal_eq: "orZeroReal v = (case v of None \<Rightarrow> 0 | Some x \<Rightarrow> x)"
  by (simp add: orZeroReal_def split: option.splits)

lemma uint_byte_of_int:
  assumes "0 \<le> k" "k < 256"
  shows "uint (word_of_int k :: byte) = k"
  using assms by (simp add: uint_word_of_int_eq take_bit_int_eq_self)

lemma uint_reps_byte:
  assumes "1 \<le> r" "r \<le> 100"
  shows "uint (word_of_int (r + 3) :: byte) = r + 3"
  by (rule uint_byte_of_int) (use assms in simp_all)

lemma uint_reps_byte':
  assumes "1 \<le> r" "r \<le> 100"
  shows "uint (word_of_int r + 3 :: byte) = r + 3"
  using uint_reps_byte [OF assms] by simp

text \<open>The "Pump" profile block under the example patterns, byte by byte.\<close>

lemma pump_profile_bytes:
  "getModeProfile f32Example PUMP =
     Inr [0x32, 0x00, 0xC2, 0x01, 0x00, 0x00, 0x20, 0x41, 0xF4, 0x01, 0x58, 0x02,
          0x00, 0x00, 0x48, 0x42, 0x44, 0xFD, 0xDA, 0xFD, 0x00, 0x00, 0x80, 0x3F,
          0x9C, 0xFF, 0xCE, 0xFF, 0x00, 0x00, 0x80, 0x3F]"
  by (simp add: bindE_def writeU16LE_def writeI16LE_def writeF32LE_def viewSet_def
        le32_def le16_def f32Example_def)

text \<open>
  Claim C4. For every valid parameter object (a rep count from 1 to 100 unless the request
  is unlimited) the builder returns, without raising, a frame of 96 bytes: the byte at
  offset \<open>0x04\<close> is \<open>0xFF\<close> when the request is unlimited and \<open>reps + 3\<close> otherwise; bytes
  \<open>0x30\<close> to \<open>0x4F\<close> are the mode profile of the base mode when unlimited and of the
  selected mode otherwise; and the four bytes at \<open>0x54\<close>, \<open>0x58\<close> and \<open>0x5C\<close> are the
  little-endian single-precision patterns of the effective weight, the per-cable weight
  and the progression, which is 0 when absent.
\<close>

theorem program_frame_layout:
  assumes "\<not> isJustLift p \<longrightarrow> 1 \<le> reps p \<and> reps p \<le> 100"
  shows "\<exists>frame profile. buildProgramParams f32 p = Inr frame \<and> length frame = 96 \<and>
     uint (frame ! 0x04) = (if isJustLift p then 0xFF else reps p + 3) \<and>
     getModeProfile f32 (if isJustLift p then baseMode p else mode p) = Inr profile \<and>
     take 32 (drop 0x30 frame) = profile \<and>
     take 4 (drop 0x54 frame) = le32 (f32 (effectiveKg p)) \<and>
     take 4 (drop 0x58 frame) = le32 (f32 (perCableKg p)) \<and>
     take 4 (drop 0x5C frame)
       = le32 (f32 (case progressionKg p of None \<Rightarrow> 0 | Some x \<Rightarrow> x))"
proof -
  obtain profile where pr:
    "getModeProfile f32 (if isJustLift p then baseMode p else mode p) = Inr profile"
    "length profile = 32"
    using profile_length by blast
  note fr = frame_shape [OF pr]
  let ?frame = "[4, 0, 0, 0, (if isJustLift p then 0xff else word_of_int (reps p + 3)), 3, 3, 0]
          @ le32 (f32 5) @ le32 (f32 5) @ [0, 0, 0, 0]
          @ [0xfa, 0, 0xfa, 0, 0xc8, 0, 0x1e, 0] @ le32 (f32 5) @ [0, 0, 0, 0]
          @ [0xfa, 0, 0xfa, 0, 0xc8, 0, 0x1e, 0, 0xfa, 0, 0x50, 0]
          @ profile @ [0, 0, 0, 0]
          @ le32 (f32 (effectiveKg p)) @ le32 (f32 (perCableKg p))
          @ le32 (f32 (orZeroReal (progressionKg p)))"
  have len: "length ?frame = 96"
    using pr(2) by (simp add: le32_length)
  have b4: "uint (?frame ! 0x04) = (if isJustLift p then 0xFF else reps p + 3)"
    using assms by (simp add: uint_reps_byte')
  have prof: "take 32 (drop 0x30 ?frame) = profile"
    using pr(2) by (simp add: le32_def)
  have w1: "take 4 (drop 0x54 ?frame) = le32 (f32 (effectiveKg p))"
    using pr(2) by (simp add: le32_def)
  have w2: "take 4 (drop 0x58 ?frame) = le32 (f32 (perCableKg p))"
    using pr(2) by (simp add: le32_def)
  have w3: "take 4 (drop 0x5C ?frame)
       = le32 (f32 (case progressionKg p of None \<Rightarrow> 0 | Some x \<Rightarrow> x))"
    using pr(2) by (simp add: le32_def orZeroReal_eq)
  from fr pr(1) len b4 prof w1 w2 w3 show ?thesis by blast
qed

text \<open>
  Ten reps of "Pump": the byte at \<open>0x04\<close> is 13, and the weights 30 and 20 are stored as
  \<open>0x41F00000\<close> and \<open>0x41A00000\<close>, low byte first.
\<close>

theorem program_frame_layout_witness:
  "isJustLift pumpTenReps = False \<and> 1 \<le> reps pumpTenReps \<and> reps pumpTenReps \<le> 100 \<and>
   (\<exists>frame profile. buildProgramParams f32Example pumpTenReps = Inr frame \<and>
      length frame = 96 \<and> uint (frame ! 0x04) = 13 \<and>
      getModeProfile f32Example PUMP = Inr profile \<and>
      take 32 (drop 0x30 frame) = profile \<and>
      take 4 (drop 0x54 frame) = [0, 0, 0xF0, 0x41] \<and>
      take 4 (drop 0x58 frame) = [0, 0, 0xA0, 0x41] \<and>
      take 4 (drop 0x5C frame) = [0, 0, 0, 0])"
proof -
  have v: "\<not> isJustLift pumpTenReps \<longrightarrow> 1 \<le> reps pumpTenReps \<and> reps pumpTenReps \<le> 100"
    by (simp add: pumpTenReps_def)
  from program_frame_layout [OF v, of f32Example]
  obtain frame profile where f:
    "buildProgramParams f32Example pumpTenReps = Inr frame" "length frame = 96"
    "uint (frame ! 0x04) = (if isJustLift pumpTenReps then 0xFF else reps pumpTenReps + 3)"
    "getModeProfile f32Example (if isJustLift pumpTenReps then baseMode pumpTenReps
                                else mode pumpTenReps) = Inr profile"
    "take 32 (drop 0x30 frame) = profile"
    "take 4 (drop 0x54 frame) = le32 (f32Example (effectiveKg pumpTenReps))"
    "take 4 (drop 0x58 frame) = le32 (f32Example (perCableKg pumpTenReps))"
    "take 4 (drop 0x5C frame)
       = le32 (f32Example (case progressionKg pumpTenReps of None \<Rightarrow> 0 | Some x \<Rightarrow> x))"
    by blast
  have b: "uint (frame ! 0x04) = 13"
    using f(3) by (simp add: pumpTenReps_def)
  have m: "getModeProfile f32Example PUMP = Inr profile"
    using f(4) by (simp add: pumpTenReps_def)
  have e: "le32 (f32Example (effectiveKg pumpTenReps)) = [0, 0, 0xF0, 0x41]"
    "le32 (f32Example (perCableKg pumpTenReps)) = [0, 0, 0xA0, 0x41]"
    "le32 (f32Example (case progressionKg pumpTenReps of None \<Rightarrow> 0 | Some x \<Rightarrow> x))
       = [0, 0, 0, 0]"
    by (simp_all add: pumpTenReps_def f32Example_def le32_def)
  have h: "isJustLift pumpTenReps = False" "1 \<le> reps pumpTenReps" "reps pumpTenReps \<le> 100"
    by (simp_all add: pumpTenReps_def)
  from h f(1,2,5) b m f(6-8) [unfolded e] show ?thesis by blast
qed

end
